theory Spec2Isabelle
  imports Complex_Main
begin

section \<open>Data model\<close>

text \<open>
  The program keeps everything in JSON files and works on what \<^verbatim>\<open>json.load\<close> returns:
  Python dictionaries, lists, strings and numbers.  A dictionary keeps its insertion
  order, and the code iterates over it, so it is an association list here; Python
  guarantees that its keys are distinct.  Prices come from integer number inputs
  (\<^verbatim>\<open>min_value=0, step=1\<close>), so numbers are integers.

  Strings are lists of characters.  The code compares them for equality and tests
  them for emptiness; everything else it does with them goes through builtins that
  know Unicode (\<^verbatim>\<open>str.lower\<close>, \<^verbatim>\<open>str.upper\<close>, \<^verbatim>\<open>str.strip\<close>) or through the
  external similarity metric \<^verbatim>\<open>fuzz.token_set_ratio\<close>.  These four are parameters
  of the functions that call them: \<open>lower\<close>, \<open>upper\<close>, \<open>strip\<close> and \<open>score\<close>.
\<close>

type_synonym ('k, 'v) dict = "('k \<times> 'v) list"

datatype json =
    JNull
  | JBool bool
  | JInt int
  | JStr string
  | JList "json list"
  | JDict "(string \<times> json) list"

type_synonym details = "(string, json) dict"

type_synonym catalog = "(string, details) dict"

datatype error = KeyError | AttributeError | IndexError | UnicodeDecodeError

definition keys :: "('k, 'v) dict \<Rightarrow> 'k list" where
  "keys d = map fst d"

section \<open>The lookup engine\<close>

text \<open>
  Lines 158 to 189 of \<^verbatim>\<open>main\<close>.
  \<^verbatim>\<open>
  category_matches = {name: details for name, details in data.items()
                      if details["category"].lower() == query_input.lower()}
  \<close>
  A product without a \<^verbatim>\<open>category\<close> field raises \<^verbatim>\<open>KeyError\<close>, one whose category is
  not a string raises \<^verbatim>\<open>AttributeError\<close>; the first such product in iteration order
  decides.
\<close>

datatype lookup_result =
    CategoryMatch string "(string \<times> json \<times> json) list"
  | SingleMatch string int json json
  | NoMatch

fun category_matches :: "(string \<Rightarrow> string) \<Rightarrow> string \<Rightarrow> catalog \<Rightarrow> error + catalog" where
  "category_matches lower q [] = Inr []"
| "category_matches lower q ((name, d) # rest) =
     (case map_of d ''category'' of
        None \<Rightarrow> Inl KeyError
      | Some (JStr c) \<Rightarrow>
          (case category_matches lower q rest of
             Inl e \<Rightarrow> Inl e
           | Inr ms \<Rightarrow> Inr (if lower c = lower q then (name, d) # ms else ms))
      | Some _ \<Rightarrow> Inl AttributeError)"

text \<open>
  \<^verbatim>\<open>
  for name, details in category_matches.items():
      st.write(f"{name}: {details['purchase_price']}/{details['selling_price']}")
  \<close>
\<close>

fun price_rows :: "catalog \<Rightarrow> error + (string \<times> json \<times> json) list" where
  "price_rows [] = Inr []"
| "price_rows ((name, d) # rest) =
     (case map_of d ''purchase_price'' of
        None \<Rightarrow> Inl KeyError
      | Some p \<Rightarrow>
          (case map_of d ''selling_price'' of
             None \<Rightarrow> Inl KeyError
           | Some s \<Rightarrow>
               (case price_rows rest of
                  Inl e \<Rightarrow> Inl e
                | Inr rs \<Rightarrow> Inr ((name, p, s) # rs))))"

text \<open>
  \<^verbatim>\<open>
  matches = []
  for product_name in data.keys():
      similarity_score = fuzz.token_set_ratio(query_input, product_name)
      if similarity_score >= 50:
          matches.append((product_name, similarity_score))
  \<close>
  The metric returns a floating-point number between 0 and 100; the code compares
  scores and truncates one, which is exact on the rational number a float stands for.
\<close>

definition fuzzy_matches :: "(string \<Rightarrow> string \<Rightarrow> rat) \<Rightarrow> string \<Rightarrow> catalog \<Rightarrow> (string \<times> rat) list" where
  "fuzzy_matches score q data =
     filter (\<lambda>m. snd m \<ge> 50) (map (\<lambda>name. (name, score q name)) (keys data))"

text \<open>\<^verbatim>\<open>int(score)\<close> truncates towards zero.\<close>

definition py_int :: "rat \<Rightarrow> int" where
  "py_int r = (if r \<ge> 0 then \<lfloor>r\<rfloor> else \<lceil>r\<rceil>)"

text \<open>
  \<^verbatim>\<open>matches.sort(key=lambda x: x[1], reverse=True)\<close> is a stable sort by descending
  score: entries with equal scores keep their order.  \<open>sort_key\<close> is a stable insertion
  sort, here on the negated score.  \<^verbatim>\<open>matches[0]\<close> on an empty list would raise
  \<^verbatim>\<open>IndexError\<close>.
\<close>

definition sort_matches :: "(string \<times> rat) list \<Rightarrow> (string \<times> rat) list" where
  "sort_matches ms = sort_key (\<lambda>m. - snd m) ms"

definition lookup ::
  "(string \<Rightarrow> string) \<Rightarrow> (string \<Rightarrow> string) \<Rightarrow> (string \<Rightarrow> string \<Rightarrow> rat) \<Rightarrow>
   string \<Rightarrow> catalog \<Rightarrow> error + lookup_result" where
  "lookup lower upper score q data =
     (case category_matches lower q data of
        Inl e \<Rightarrow> Inl e
      | Inr cms \<Rightarrow>
          if cms \<noteq> [] then
            (case price_rows cms of
               Inl e \<Rightarrow> Inl e
             | Inr rows \<Rightarrow> Inr (CategoryMatch (upper q) rows))
          else
            (let matches = fuzzy_matches score q data in
             if matches \<noteq> [] then
               (case sort_matches matches of
                  [] \<Rightarrow> Inl IndexError
                | (best_match, s) # _ \<Rightarrow>
                    (case map_of data best_match of
                       None \<Rightarrow> Inl KeyError
                     | Some product \<Rightarrow>
                         (case map_of product ''purchase_price'' of
                            None \<Rightarrow> Inl KeyError
                          | Some p \<Rightarrow>
                              (case map_of product ''selling_price'' of
                                 None \<Rightarrow> Inl KeyError
                               | Some sp \<Rightarrow> Inr (SingleMatch best_match (py_int s) p sp)))))
             else Inr NoMatch))"

text \<open>
  The handler of the search page (lines 152 to 189): the query is stripped, and an
  empty catalog is answered with a warning of its own (\<^verbatim>\<open>No products found. Please add
  some products first.\<close>) before the lookup runs.
\<close>

datatype search_output = NoProductsWarning | Looked "error + lookup_result"

definition search ::
  "(string \<Rightarrow> string) \<Rightarrow> (string \<Rightarrow> string) \<Rightarrow> (string \<Rightarrow> string) \<Rightarrow>
   (string \<Rightarrow> string \<Rightarrow> rat) \<Rightarrow> string \<Rightarrow> catalog \<Rightarrow> search_output" where
  "search strip lower upper score raw data =
     (let query_input = strip raw in
      if data = [] then NoProductsWarning
      else Looked (lookup lower upper score query_input data))"

text \<open>
  What the stored catalog looks like: every product the program writes (lines 289 to
  294 and 317 to 322) has a string \<^verbatim>\<open>category\<close> and the price fields.
\<close>

definition has_category :: "details \<Rightarrow> bool" where
  "has_category d = (case map_of d ''category'' of Some (JStr c) \<Rightarrow> True | _ \<Rightarrow> False)"

definition has_prices :: "details \<Rightarrow> bool" where
  "has_prices d = (map_of d ''purchase_price'' \<noteq> None \<and> map_of d ''selling_price'' \<noteq> None)"

definition well_formed :: "catalog \<Rightarrow> bool" where
  "well_formed data = list_all (\<lambda>(name, d). has_category d \<and> has_prices d) data"

text \<open>The category test of the first pass, as a predicate on one product.\<close>

definition in_category :: "(string \<Rightarrow> string) \<Rightarrow> string \<Rightarrow> details \<Rightarrow> bool" where
  "in_category lower q d =
     (case map_of d ''category'' of Some (JStr c) \<Rightarrow> lower c = lower q | _ \<Rightarrow> False)"

definition price_row :: "string \<times> details \<Rightarrow> string \<times> json option \<times> json option" where
  "price_row nd = (fst nd, map_of (snd nd) ''purchase_price'', map_of (snd nd) ''selling_price'')"

section \<open>The JSON files\<close>

text \<open>
  \<^verbatim>\<open>
  def load_data(file_path):
      if os.path.exists(file_path):
          with open(file_path, "r") as file:
              try:
                  return json.load(file)
              except json.JSONDecodeError:
                  return {}  # Return an empty dictionary if the file is invalid
      return {}  # Return an empty dictionary if the file doesn't exist
  def save_data(data, file_path):
      with open(file_path, "w") as file:
          json.dump(data, file, indent=4)
  \<close>
  The file is opened as text, and \<^verbatim>\<open>json.load\<close> first reads all of it.  For a file
  that exists this has three outcomes: the bytes are not text in the encoding of the
  file object, and reading raises \<^verbatim>\<open>UnicodeDecodeError\<close>; the text is not JSON, and
  parsing raises \<^verbatim>\<open>JSONDecodeError\<close>; or a value comes back.  Only the second
  exception is caught.  \<^verbatim>\<open>json.dump\<close> followed by \<^verbatim>\<open>json.load\<close> gives the value back,
  so a saved file holds the value itself.
\<close>

datatype content = Undecodable | Invalid | Json json

type_synonym files = "string \<Rightarrow> content option"

definition PRODUCTS_FILE :: string where
  "PRODUCTS_FILE = ''product_prices.json''"

definition CATEGORIES_FILE :: string where
  "CATEGORIES_FILE = ''categories.json''"

definition load_data :: "files \<Rightarrow> string \<Rightarrow> error + json" where
  "load_data fs file_path =
     (case fs file_path of
        Some c \<Rightarrow>
          (case c of
             Undecodable \<Rightarrow> Inl UnicodeDecodeError
           | Invalid \<Rightarrow> Inr (JDict [])
           | Json j \<Rightarrow> Inr j)
      | None \<Rightarrow> Inr (JDict []))"

definition save_data :: "json \<Rightarrow> string \<Rightarrow> files \<Rightarrow> files" where
  "save_data data file_path fs = fs(file_path \<mapsto> Json data)"

text \<open>
  \<^verbatim>\<open>categories = load_data(CATEGORIES_FILE).get("categories", [])\<close>: a value that
  is not a dictionary has no \<^verbatim>\<open>get\<close>.
\<close>

definition load_categories :: "files \<Rightarrow> error + json" where
  "load_categories fs =
     (case load_data fs CATEGORIES_FILE of
        Inl e \<Rightarrow> Inl e
      | Inr (JDict d) \<Rightarrow> Inr (case map_of d ''categories'' of Some v \<Rightarrow> v | None \<Rightarrow> JList [])
      | Inr _ \<Rightarrow> Inl AttributeError)"

text \<open>The catalog and the category list as the JSON values that are saved.\<close>

definition json_of_catalog :: "catalog \<Rightarrow> json" where
  "json_of_catalog data = JDict (map (\<lambda>(name, d). (name, JDict d)) data)"

definition json_of_categories :: "string list \<Rightarrow> json" where
  "json_of_categories categories = JDict [(''categories'', JList (map JStr categories))]"

section \<open>The CSV exporter\<close>

text \<open>
  \<^verbatim>\<open>
  def generate_csv(data, selected_columns, file_name="output.csv"):
      if not data:
          return None
      ...
          writer.writerow(selected_columns)
          for product, details in data.items():
              row = [details.get(col, product if col == "Product Name" else "")
                     for col in selected_columns]
              writer.writerow(row)
      return file_path
  \<close>
  The result is the header and the rows handed to the CSV writer.
\<close>

definition csv_cell :: "string \<Rightarrow> details \<Rightarrow> string \<Rightarrow> json" where
  "csv_cell product d col =
     (case map_of d col of
        Some v \<Rightarrow> v
      | None \<Rightarrow> JStr (if col = ''Product Name'' then product else []))"

definition generate_csv :: "catalog \<Rightarrow> string list \<Rightarrow> (string list \<times> json list list) option" where
  "generate_csv data selected_columns =
     (if data = [] then None
      else Some (selected_columns,
                 map (\<lambda>(product, d). map (csv_cell product d) selected_columns) data))"

text \<open>
  What section 4.4 of the specification says a cell is: the key for the column
  \<^verbatim>\<open>Product Name\<close>, the field of that name for every other column, the empty string
  when the field is absent.
\<close>

definition spec_cell :: "string \<Rightarrow> details \<Rightarrow> string \<Rightarrow> json" where
  "spec_cell product d col =
     (if col = ''Product Name'' then JStr product
      else (case map_of d col of Some v \<Rightarrow> v | None \<Rightarrow> JStr []))"

text \<open>
  The comprehensions over the catalog that test \<^verbatim>\<open>details["category"]\<close> (lines 214,
  250 and 435): a product without the field raises \<^verbatim>\<open>KeyError\<close>.
\<close>

fun select_by_category :: "(json \<Rightarrow> bool) \<Rightarrow> catalog \<Rightarrow> error + catalog" where
  "select_by_category keep [] = Inr []"
| "select_by_category keep ((name, d) # rest) =
     (case map_of d ''category'' of
        None \<Rightarrow> Inl KeyError
      | Some v \<Rightarrow>
          (case select_by_category keep rest of
             Inl e \<Rightarrow> Inl e
           | Inr ms \<Rightarrow> Inr (if keep v then (name, d) # ms else ms)))"








section \<open>Adding a product and deleting a category\<close>

text \<open>\<^verbatim>\<open>d[k] = v\<close>: an existing key keeps its place, a new key goes to the end.\<close>

fun dict_set :: "'k \<Rightarrow> 'v \<Rightarrow> ('k, 'v) dict \<Rightarrow> ('k, 'v) dict" where
  "dict_set k v [] = [(k, v)]"
| "dict_set k v ((k', v') # rest) =
     (if k = k' then (k, v) # rest else (k', v') # dict_set k v rest)"

definition new_product :: "string \<Rightarrow> int \<Rightarrow> int \<Rightarrow> int \<Rightarrow> details" where
  "new_product category purchase_price dealer_price selling_price =
     [(''category'', JStr category),
      (''purchase_price'', JInt purchase_price),
      (''dealer_price'', JInt dealer_price),
      (''selling_price'', JInt selling_price)]"

datatype notice = Success | Failure

text \<open>
  Lines 287 to 298.  The result is the catalog in memory, the files, and whether
  \<^verbatim>\<open>st.success\<close> or \<^verbatim>\<open>st.error\<close> was shown.
\<close>

definition add_product ::
  "string \<Rightarrow> string \<Rightarrow> int \<Rightarrow> int \<Rightarrow> int \<Rightarrow> catalog \<Rightarrow> files \<Rightarrow> catalog \<times> files \<times> notice" where
  "add_product product_name category purchase_price dealer_price selling_price data fs =
     (if product_name \<noteq> [] \<and> category \<noteq> ''Select a Category'' \<and> purchase_price > 0 \<and>
         selling_price > 0 \<and> dealer_price > 0
      then
        (let data' = dict_set product_name
                       (new_product category purchase_price dealer_price selling_price) data
         in (data', save_data (json_of_catalog data') PRODUCTS_FILE fs, Success))
      else (data, fs, Failure))"

text \<open>
  Lines 432 to 440.  \<^verbatim>\<open>categories.remove\<close> takes out the first occurrence; the
  category page adds a name only when it is not in the list yet (line 421), so the
  list the program keeps has no duplicates.  When the comprehension raises, nothing
  has been saved.
\<close>

definition delete_category ::
  "string \<Rightarrow> catalog \<Rightarrow> string list \<Rightarrow> files \<Rightarrow> error + (catalog \<times> string list \<times> files \<times> notice)" where
  "delete_category selected_category data categories fs =
     (if selected_category \<in> set categories then
        (let categories' = remove1 selected_category categories in
         case select_by_category (\<lambda>v. v \<noteq> JStr selected_category) data of
           Inl e \<Rightarrow> Inl e
         | Inr data' \<Rightarrow>
             Inr (data', categories',
                  save_data (json_of_categories categories') CATEGORIES_FILE
                    (save_data (json_of_catalog data') PRODUCTS_FILE fs),
                  Success))
      else Inr (data, categories, fs, Failure))"

definition has_category_field :: "catalog \<Rightarrow> bool" where
  "has_category_field data = list_all (\<lambda>(name, d). map_of d ''category'' \<noteq> None) data"

section \<open>Example data\<close>

text \<open>
  Case mapping on the letters \<^verbatim>\<open>A\<close> to \<^verbatim>\<open>Z\<close>, which is what \<^verbatim>\<open>str.lower\<close> and
  \<^verbatim>\<open>str.upper\<close> do on the ASCII strings of the examples, and a metric for them.
\<close>

definition ascii_lower :: "string \<Rightarrow> string" where
  "ascii_lower s =
     map (\<lambda>c. let n = (of_char c :: nat) in if 65 \<le> n \<and> n \<le> 90 then char_of (n + 32) else c) s"

definition ascii_upper :: "string \<Rightarrow> string" where
  "ascii_upper s =
     map (\<lambda>c. let n = (of_char c :: nat) in if 97 \<le> n \<and> n \<le> 122 then char_of (n - 32) else c) s"

definition example_catalog :: catalog where
  "example_catalog =
     [(''Hammer'', new_product ''Tools'' 10 12 15),
      (''Red Pen'', new_product ''Stationery'' 5 6 8),
      (''Saw'', new_product ''TOOLS'' 20 22 25),
      (''Blue Pen'', new_product ''Stationery'' 4 5 7)]"

definition example_score :: "string \<Rightarrow> string \<Rightarrow> rat" where
  "example_score q name =
     (if q = ''pen'' then
        (if name = ''Red Pen'' \<or> name = ''Blue Pen'' then 181 / 2
         else if name = ''Saw'' then 60 else 20)
      else if q = [] \<or> q = ''xyz123'' then 0 else 100)"

definition example_unfiled :: catalog where
  "example_unfiled = example_catalog @ [(''Misc'', new_product [] 1 2 3)]"

section \<open>Properties of the lookup engine\<close>

lemma category_matches_wf:
  "list_all (\<lambda>(name, d). has_category d) data \<Longrightarrow>
   category_matches lower q data = Inr (filter (\<lambda>(name, d). in_category lower q d) data)"
  by (induction data)
     (auto simp: has_category_def in_category_def split: option.splits json.splits)

lemma price_rows_wf:
  "list_all (\<lambda>(name, d). has_prices d) ms \<Longrightarrow>
   \<exists>rows. price_rows ms = Inr rows \<and>
          map (\<lambda>(n, p, s). (n, Some p, Some s)) rows = map price_row ms"
  by (induction ms) (auto simp: has_prices_def price_row_def)

lemma well_formed_category: "well_formed data \<Longrightarrow> list_all (\<lambda>(name, d). has_category d) data"
  by (induction data) (auto simp: well_formed_def)

lemma well_formed_prices:
  "well_formed data \<Longrightarrow> list_all (\<lambda>(name, d). has_prices d) (filter P data)"
  by (induction data) (auto simp: well_formed_def)

lemma well_formed_map_of:
  "well_formed data \<Longrightarrow> n \<in> set (keys data) \<Longrightarrow>
   \<exists>d p sp. map_of data n = Some d \<and> map_of d ''purchase_price'' = Some p \<and>
            map_of d ''selling_price'' = Some sp"
  by (induction data) (auto simp: well_formed_def keys_def has_prices_def)

lemma no_category_matches:
  assumes "well_formed data"
    and "\<not> (\<exists>nd \<in> set data. in_category lower q (snd nd))"
  shows "category_matches lower q data = Inr []"
proof -
  have "filter (\<lambda>(name, d). in_category lower q d) data = []"
    using assms(2) by (auto simp: filter_empty_conv)
  then show ?thesis
    using assms(1) by (simp add: category_matches_wf well_formed_category)
qed

lemma lookup_category_rows:
  assumes "well_formed data"
    and "\<exists>nd \<in> set data. in_category lower q (snd nd)"
  shows "\<exists>rows. lookup lower upper score q data = Inr (CategoryMatch (upper q) rows) \<and>
           map (\<lambda>(n, p, s). (n, Some p, Some s)) rows =
             map price_row (filter (\<lambda>(name, d). in_category lower q d) data)"
proof -
  let ?cms = "filter (\<lambda>(name, d). in_category lower q d) data"
  have cm: "category_matches lower q data = Inr ?cms"
    using assms(1) by (simp add: category_matches_wf well_formed_category)
  have ne: "?cms \<noteq> []"
    using assms(2) by (auto simp: filter_empty_conv)
  obtain rows where rows: "price_rows ?cms = Inr rows"
    "map (\<lambda>(n, p, s). (n, Some p, Some s)) rows = map price_row ?cms"
    using price_rows_wf [OF well_formed_prices [OF assms(1)]] by blast
  show ?thesis
    using cm ne rows by (simp add: lookup_def)
qed

lemma fuzzy_matches_empty:
  "(fuzzy_matches score q data = []) = (\<not> (\<exists>n \<in> set (keys data). 50 \<le> score q n))"
  by (auto simp: fuzzy_matches_def filter_empty_conv)

lemma py_int_floor: "0 \<le> r \<Longrightarrow> py_int r = \<lfloor>r\<rfloor>"
  by (simp add: py_int_def)

lemma lookup_fuzzy_none:
  "category_matches lower q data = Inr [] \<Longrightarrow> fuzzy_matches score q data = [] \<Longrightarrow>
   lookup lower upper score q data = Inr NoMatch"
  by (simp add: lookup_def)

lemma sort_key_first_min:
  "xs \<noteq> [] \<Longrightarrow>
   \<exists>ys x zs r. xs = ys @ x # zs \<and> sort_key f xs = x # r \<and>
     (\<forall>y \<in> set ys. f x < f y) \<and> (\<forall>z \<in> set zs. f x \<le> f z)"
proof (induction xs)
  case Nil
  then show ?case by simp
next
  case (Cons a xs)
  show ?case
  proof (cases "xs = []")
    case True
    have "a # xs = [] @ a # [] \<and> sort_key f (a # xs) = a # [] \<and>
       (\<forall>y \<in> set []. f a < f y) \<and> (\<forall>z \<in> set []. f a \<le> f z)"
      using True by simp
    then show ?thesis by (rule_tac x = "[]" in exI, rule_tac x = a in exI,
      rule_tac x = "[]" in exI, rule_tac x = "[]" in exI)
  next
    case False
    from Cons.IH [OF False] obtain ys x zs r where ih: "xs = ys @ x # zs" "sort_key f xs = x # r"
      "\<forall>y \<in> set ys. f x < f y" "\<forall>z \<in> set zs. f x \<le> f z"
      by (elim exE conjE)
    show ?thesis
    proof (cases "f a \<le> f x")
      case True
      have 1: "a # xs = [] @ a # xs" by simp
      have 2: "sort_key f (a # xs) = a # x # r" using ih(2) True by simp
      have 3: "\<forall>z \<in> set xs. f a \<le> f z"
      proof
        fix z assume "z \<in> set xs"
        then consider "z \<in> set ys" | "z = x" | "z \<in> set zs"
          using ih(1) by auto
        then show "f a \<le> f z"
        proof cases
          case 1
          then have "f x < f z" using ih(3) by simp
          then show ?thesis using True by simp
        next
          case 2
          then show ?thesis using True by simp
        next
          case 3
          then have "f x \<le> f z" using ih(4) by simp
          then show ?thesis using True by simp
        qed
      qed
      have "a # xs = [] @ a # xs \<and> sort_key f (a # xs) = a # x # r \<and>
        (\<forall>y \<in> set []. f a < f y) \<and> (\<forall>z \<in> set xs. f a \<le> f z)"
        using 2 3 by simp
      then show ?thesis by (rule_tac x = "[]" in exI, rule_tac x = a in exI,
        rule_tac x = xs in exI, rule_tac x = "x # r" in exI)
    next
      case False
      have "a # xs = (a # ys) @ x # zs \<and> sort_key f (a # xs) = x # insort_key f a r \<and>
        (\<forall>y \<in> set (a # ys). f x < f y) \<and> (\<forall>z \<in> set zs. f x \<le> f z)"
        using ih False by simp
      then show ?thesis by (rule_tac x = "a # ys" in exI, rule_tac x = x in exI,
        rule_tac x = zs in exI, rule_tac x = "insort_key f a r" in exI)
    qed
  qed
qed

lemma filter_split:
  "filter P xs = ys @ x # zs \<Longrightarrow>
   \<exists>us vs. xs = us @ x # vs \<and> filter P us = ys \<and> filter P vs = zs \<and> P x"
proof (induction xs arbitrary: ys)
  case Nil
  then show ?case by simp
next
  case (Cons a xs)
  show ?case
  proof (cases "P a")
    case False
    then have "filter P xs = ys @ x # zs" using Cons.prems by simp
    then obtain us vs where "xs = us @ x # vs" "filter P us = ys" "filter P vs = zs" "P x"
      using Cons.IH by blast
    then have "a # xs = (a # us) @ x # vs \<and> filter P (a # us) = ys \<and> filter P vs = zs \<and> P x"
      using False by simp
    then show ?thesis by blast
  next
    case True
    then have eq: "a # filter P xs = ys @ x # zs" using Cons.prems by simp
    show ?thesis
    proof (cases ys)
      case Nil
      then have "a # xs = [] @ x # xs \<and> filter P [] = ys \<and> filter P xs = zs \<and> P x"
        using eq True by simp
      then show ?thesis by blast
    next
      case (Cons b ys')
      then have "filter P xs = ys' @ x # zs" "b = a" using eq by simp_all
      then obtain us vs where "xs = us @ x # vs" "filter P us = ys'" "filter P vs = zs" "P x"
        using Cons.IH by blast
      then have "a # xs = (a # us) @ x # vs \<and> filter P (a # us) = ys \<and> filter P vs = zs \<and> P x"
        using True Cons \<open>b = a\<close> by simp
      then show ?thesis by blast
    qed
  qed
qed

lemma fuzzy_matches_best:
  assumes "fuzzy_matches score q data \<noteq> []"
  shows "\<exists>ks1 n ks2 r. keys data = ks1 @ n # ks2 \<and>
           sort_matches (fuzzy_matches score q data) = (n, score q n) # r \<and>
           50 \<le> score q n \<and>
           (\<forall>k \<in> set ks1. score q k < score q n) \<and>
           (\<forall>k \<in> set (keys data). score q k \<le> score q n)"
proof -
  let ?g = "\<lambda>name. (name, score q name)"
  let ?P = "\<lambda>m :: string \<times> rat. snd m \<ge> 50"
  let ?f = "\<lambda>m :: string \<times> rat. - snd m"
  obtain ys x zs r where s: "fuzzy_matches score q data = ys @ x # zs"
    "sort_key ?f (fuzzy_matches score q data) = x # r"
    "\<forall>y \<in> set ys. ?f x < ?f y" "\<forall>z \<in> set zs. ?f x \<le> ?f z"
    using sort_key_first_min [OF assms, of ?f] by blast
  obtain us vs where f: "map ?g (keys data) = us @ x # vs" "filter ?P us = ys"
    "filter ?P vs = zs" "?P x"
    using filter_split [of ?P "map ?g (keys data)" ys x zs] s(1)
    by (auto simp: fuzzy_matches_def)
  obtain ks1 n ks2 where k: "keys data = ks1 @ n # ks2" "map ?g ks1 = us" "?g n = x"
    "map ?g ks2 = vs"
    using f(1) by (auto simp: map_eq_append_conv map_eq_Cons_conv)
  have x: "x = (n, score q n)" using k(3) by simp
  have ge: "50 \<le> score q n" using f(4) x by simp
  have before: "\<forall>k \<in> set ks1. score q k < score q n"
  proof
    fix a assume a: "a \<in> set ks1"
    show "score q a < score q n"
    proof (cases "50 \<le> score q a")
      case True
      then have "?g a \<in> set ys" using a k(2) f(2) by auto
      then show ?thesis using s(3) x by auto
    next
      case False
      then show ?thesis using ge by simp
    qed
  qed
  have after: "\<forall>k \<in> set ks2. score q k \<le> score q n"
  proof
    fix a assume a: "a \<in> set ks2"
    show "score q a \<le> score q n"
    proof (cases "50 \<le> score q a")
      case True
      then have "?g a \<in> set zs" using a k(4) f(3) by auto
      then show ?thesis using s(4) x by auto
    next
      case False
      then show ?thesis using ge by simp
    qed
  qed
  have "\<forall>k \<in> set (keys data). score q k \<le> score q n"
  proof
    fix a assume "a \<in> set (keys data)"
    then consider "a \<in> set ks1" | "a = n" | "a \<in> set ks2"
      using k(1) by auto
    then show "score q a \<le> score q n"
    proof cases
      case 1
      then have "score q a < score q n" using before by simp
      then show ?thesis by simp
    next
      case 2
      then show ?thesis by simp
    next
      case 3
      then show ?thesis using after by simp
    qed
  qed
  then show ?thesis
    using k(1) s(2) x ge before by (auto simp: sort_matches_def)
qed

lemma lookup_fuzzy_some:
  assumes wf: "well_formed data"
    and cm: "category_matches lower q data = Inr []"
    and fm: "fuzzy_matches score q data \<noteq> []"
  shows "\<exists>n p sp. lookup lower upper score q data = Inr (SingleMatch n \<lfloor>score q n\<rfloor> p sp)"
proof -
  obtain ks1 n ks2 r where b: "keys data = ks1 @ n # ks2"
    "sort_matches (fuzzy_matches score q data) = (n, score q n) # r" "50 \<le> score q n"
    using fuzzy_matches_best [OF fm] by (elim exE conjE)
  have "n \<in> set (keys data)" using b(1) by simp
  then obtain d p sp where d: "map_of data n = Some d" "map_of d ''purchase_price'' = Some p"
    "map_of d ''selling_price'' = Some sp"
    using well_formed_map_of [OF wf] by blast
  have "py_int (score q n) = \<lfloor>score q n\<rfloor>" using b(3) by (simp add: py_int_floor)
  then have "lookup lower upper score q data = Inr (SingleMatch n \<lfloor>score q n\<rfloor> p sp)"
    using cm fm b(2) d by (simp add: lookup_def)
  then show ?thesis by blast
qed

lemma lookup_SingleMatch_best:
  assumes "lookup lower upper score q data = Inr (SingleMatch n s p sp)"
  shows "\<exists>ks1 ks2 d. keys data = ks1 @ n # ks2 \<and> 50 \<le> score q n \<and> s = \<lfloor>score q n\<rfloor> \<and>
           (\<forall>k \<in> set (keys data). score q k \<le> score q n) \<and>
           (\<forall>k \<in> set ks1. score q k < score q n) \<and>
           map_of data n = Some d \<and> map_of d ''purchase_price'' = Some p \<and>
           map_of d ''selling_price'' = Some sp"
proof -
  have fm: "fuzzy_matches score q data \<noteq> []"
    using assms by (auto simp: lookup_def Let_def split: sum.splits if_splits)
  obtain ks1 n' ks2 r where b: "keys data = ks1 @ n' # ks2"
    "sort_matches (fuzzy_matches score q data) = (n', score q n') # r" "50 \<le> score q n'"
    "\<forall>k \<in> set ks1. score q k < score q n'" "\<forall>k \<in> set (keys data). score q k \<le> score q n'"
    using fuzzy_matches_best [OF fm] by (elim exE conjE)
  have res: "n = n' \<and> s = py_int (score q n') \<and>
     (\<exists>d. map_of data n' = Some d \<and> map_of d ''purchase_price'' = Some p \<and>
          map_of d ''selling_price'' = Some sp)"
    using assms fm b(2)
    by (auto simp: lookup_def Let_def split: sum.splits if_splits option.splits)
  then obtain d where d: "map_of data n = Some d" "map_of d ''purchase_price'' = Some p"
    "map_of d ''selling_price'' = Some sp" by blast
  have "s = \<lfloor>score q n\<rfloor>" using res b(3) by (simp add: py_int_floor)
  then have "keys data = ks1 @ n # ks2 \<and> 50 \<le> score q n \<and> s = \<lfloor>score q n\<rfloor> \<and>
           (\<forall>k \<in> set (keys data). score q k \<le> score q n) \<and>
           (\<forall>k \<in> set ks1. score q k < score q n) \<and>
           map_of data n = Some d \<and> map_of d ''purchase_price'' = Some p \<and>
           map_of d ''selling_price'' = Some sp"
    using res b d by simp
  then show ?thesis by (rule_tac x = ks1 in exI, rule_tac x = ks2 in exI, rule_tac x = d in exI)
qed

lemma lookup_total:
  assumes "well_formed data"
  shows "\<exists>r. lookup lower upper score q data = Inr r"
proof (cases "\<exists>nd \<in> set data. in_category lower q (snd nd)")
  case True
  then show ?thesis
    using lookup_category_rows [OF assms True, of upper score] by blast
next
  case False
  then have cm: "category_matches lower q data = Inr []"
    using assms by (rule_tac no_category_matches)
  show ?thesis
  proof (cases "fuzzy_matches score q data = []")
    case True
    then show ?thesis using lookup_fuzzy_none [OF cm True] by blast
  next
    case False
    then show ?thesis using lookup_fuzzy_some [OF assms cm False] by blast
  qed
qed

text \<open>Evaluation of the examples.\<close>

lemma example_well_formed: "well_formed example_catalog \<and> well_formed example_unfiled"
  by (simp add: well_formed_def example_catalog_def example_unfiled_def new_product_def
      has_category_def has_prices_def)

lemma example_lower:
  "ascii_lower ''Tools'' = ''tools''" "ascii_lower ''TOOLS'' = ''tools''"
  "ascii_lower ''tools'' = ''tools''" "ascii_lower ''Stationery'' = ''stationery''"
  "ascii_lower ''pen'' = ''pen''" "ascii_lower ''xyz123'' = ''xyz123''"
  "ascii_lower [] = []" "ascii_upper ''tools'' = ''TOOLS''" "ascii_upper [] = []"
  by code_simp+

lemma ascii_lower_empty: "(ascii_lower s = ascii_lower []) = (s = [])"
  by (simp add: ascii_lower_def)

lemma example_tools:
  "filter (\<lambda>(name, d). in_category ascii_lower ''tools'' d) example_catalog =
     [(''Hammer'', new_product ''Tools'' 10 12 15), (''Saw'', new_product ''TOOLS'' 20 22 25)]"
  by (simp add: example_catalog_def in_category_def new_product_def example_lower)

lemma example_no_category:
  "\<not> (\<exists>nd \<in> set example_catalog. in_category ascii_lower ''pen'' (snd nd))"
  "\<not> (\<exists>nd \<in> set example_catalog. in_category ascii_lower ''xyz123'' (snd nd))"
  by (simp_all add: example_catalog_def in_category_def new_product_def example_lower)

lemma example_floor: "\<lfloor>181 / 2 :: rat\<rfloor> = 90"
  by (rule floor_unique) simp_all

lemma example_pen:
  "lookup ascii_lower ascii_upper example_score ''pen'' example_catalog =
     Inr (SingleMatch ''Red Pen'' 90 (JInt 5) (JInt 8))"
  by (simp add: lookup_def example_catalog_def new_product_def example_lower fuzzy_matches_def
      keys_def example_score_def sort_matches_def py_int_def example_floor)

text \<open>
  Claim C1.  When some product of a well-formed catalog has a category whose lower-case
  form equals the lower-case query, the lookup returns a category match with the
  upper-cased query, whose rows are exactly the products of that category with their
  purchase and selling prices, in catalog order.  The result does not mention the
  similarity metric: the fuzzy pass is not reached.
\<close>

theorem lookup_category_match:
  assumes "well_formed data"
    and "\<exists>nd \<in> set data. in_category lower q (snd nd)"
  shows "\<exists>rows. lookup lower upper score q data = Inr (CategoryMatch (upper q) rows) \<and>
           map (\<lambda>(n, p, s). (n, Some p, Some s)) rows =
             map price_row (filter (\<lambda>(name, d). in_category lower q d) data)"
  using assms by (rule lookup_category_rows)

theorem lookup_category_match_witness:
  "lookup ascii_lower ascii_upper (\<lambda>a b. 100) ''tools'' example_catalog =
     Inr (CategoryMatch ''TOOLS'' [(''Hammer'', JInt 10, JInt 15), (''Saw'', JInt 20, JInt 25)])"
proof -
  have h1: "well_formed example_catalog"
    using example_well_formed by simp
  have h2: "\<exists>nd \<in> set example_catalog. in_category ascii_lower ''tools'' (snd nd)"
    by (simp add: example_catalog_def in_category_def new_product_def example_lower)
  obtain rows where r:
    "lookup ascii_lower ascii_upper (\<lambda>a b. 100) ''tools'' example_catalog =
       Inr (CategoryMatch (ascii_upper ''tools'') rows)"
    "map (\<lambda>(n, p, s). (n, Some p, Some s)) rows =
       map price_row (filter (\<lambda>(name, d). in_category ascii_lower ''tools'' d) example_catalog)"
    using lookup_category_match [OF h1 h2, of ascii_upper "\<lambda>a b. 100"] by (elim exE conjE)
  have "map (\<lambda>(n, p, s). (n, Some p, Some s)) rows =
      [(''Hammer'', Some (JInt 10), Some (JInt 15)), (''Saw'', Some (JInt 20), Some (JInt 25))]"
    using r(2) by (simp add: example_tools price_row_def new_product_def)
  then have "rows = [(''Hammer'', JInt 10, JInt 15), (''Saw'', JInt 20, JInt 25)]"
    by (auto simp: map_eq_Cons_conv)
  then show ?thesis using r(1) by (simp add: example_lower)
qed

text \<open>
  Claim C2.  On a well-formed catalog in which no product's category matches the
  query, the lookup returns a single match exactly when some product name scores at
  least 50 against the query, and no match otherwise.
\<close>

theorem lookup_single_match_iff:
  assumes "well_formed data"
    and "\<not> (\<exists>nd \<in> set data. in_category lower q (snd nd))"
  shows "((\<exists>n s p sp. lookup lower upper score q data = Inr (SingleMatch n s p sp)) =
            (\<exists>n \<in> set (keys data). 50 \<le> score q n)) \<and>
         (\<not> (\<exists>n \<in> set (keys data). 50 \<le> score q n) \<longrightarrow>
            lookup lower upper score q data = Inr NoMatch)"
proof -
  have cm: "category_matches lower q data = Inr []"
    using assms by (rule no_category_matches)
  show ?thesis
  proof (cases "fuzzy_matches score q data = []")
    case True
    then have "lookup lower upper score q data = Inr NoMatch"
      using cm by (rule_tac lookup_fuzzy_none)
    then show ?thesis using True by (simp add: fuzzy_matches_empty)
  next
    case False
    then have "\<exists>n p sp. lookup lower upper score q data = Inr (SingleMatch n \<lfloor>score q n\<rfloor> p sp)"
      using assms(1) cm by (rule_tac lookup_fuzzy_some)
    then have "\<exists>n s p sp. lookup lower upper score q data = Inr (SingleMatch n s p sp)"
      by blast
    then show ?thesis using False by (simp add: fuzzy_matches_empty)
  qed
qed

theorem lookup_single_match_iff_witness:
  "(\<exists>n s p sp. lookup ascii_lower ascii_upper example_score ''pen'' example_catalog =
       Inr (SingleMatch n s p sp)) \<and>
   lookup ascii_lower ascii_upper example_score ''xyz123'' example_catalog = Inr NoMatch"
proof -
  have wf: "well_formed example_catalog"
    using example_well_formed by simp
  have pen: "\<exists>n \<in> set (keys example_catalog). 50 \<le> example_score ''pen'' n"
    by (simp add: keys_def example_catalog_def example_score_def)
  have xyz: "\<not> (\<exists>n \<in> set (keys example_catalog). 50 \<le> example_score ''xyz123'' n)"
    by (simp add: keys_def example_catalog_def example_score_def)
  have 1: "\<exists>n s p sp. lookup ascii_lower ascii_upper example_score ''pen'' example_catalog =
       Inr (SingleMatch n s p sp)"
    using lookup_single_match_iff [OF wf example_no_category(1), of ascii_upper example_score] pen
    by simp
  have 2: "lookup ascii_lower ascii_upper example_score ''xyz123'' example_catalog = Inr NoMatch"
    using lookup_single_match_iff [OF wf example_no_category(2), of ascii_upper example_score] xyz
    by simp
  show ?thesis using 1 2 by simp
qed

text \<open>
  Claim C3.  When the lookup returns a single match, the product named is in the
  catalog and scores at least 50; no product name scores higher; every name before it
  in catalog order scores strictly less, so among the names with the top score the
  first one is returned; the score shown is that top score rounded down; and the
  prices are those of the product.
\<close>

theorem lookup_single_match_best:
  assumes "lookup lower upper score q data = Inr (SingleMatch n s p sp)"
  shows "\<exists>ks1 ks2 d. keys data = ks1 @ n # ks2 \<and> 50 \<le> score q n \<and> s = \<lfloor>score q n\<rfloor> \<and>
           (\<forall>k \<in> set (keys data). score q k \<le> score q n) \<and>
           (\<forall>k \<in> set ks1. score q k < score q n) \<and>
           map_of data n = Some d \<and> map_of d ''purchase_price'' = Some p \<and>
           map_of d ''selling_price'' = Some sp"
  using assms by (rule lookup_SingleMatch_best)

theorem lookup_single_match_best_witness:
  "lookup ascii_lower ascii_upper example_score ''pen'' example_catalog =
     Inr (SingleMatch ''Red Pen'' 90 (JInt 5) (JInt 8)) \<and>
   \<lfloor>example_score ''pen'' ''Red Pen''\<rfloor> = 90 \<and>
   example_score ''pen'' ''Blue Pen'' \<le> example_score ''pen'' ''Red Pen'' \<and>
   example_score ''pen'' ''Saw'' \<le> example_score ''pen'' ''Red Pen''"
proof -
  have b: "(90::int) = \<lfloor>example_score ''pen'' ''Red Pen''\<rfloor>"
    "\<forall>k \<in> set (keys example_catalog). example_score ''pen'' k \<le> example_score ''pen'' ''Red Pen''"
    using lookup_single_match_best [OF example_pen] by blast+
  have "''Blue Pen'' \<in> set (keys example_catalog)" "''Saw'' \<in> set (keys example_catalog)"
    by (simp_all add: keys_def example_catalog_def)
  then have "example_score ''pen'' ''Blue Pen'' \<le> example_score ''pen'' ''Red Pen''"
    "example_score ''pen'' ''Saw'' \<le> example_score ''pen'' ''Red Pen''"
    using b(2) by blast+
  then show ?thesis using example_pen b(1) by simp
qed

text \<open>
  Claim C4.  On a well-formed catalog the lookup returns a result for every query and
  never raises.  On the empty catalog the result is no match.  For the empty query,
  given that only the empty string lower-cases to what the empty string lower-cases
  to: when some product has the empty string as its category, the category pass
  returns those products; when none has, and the metric scores the empty query below
  50 against every product name (\<^verbatim>\<open>token_set_ratio\<close> gives 0 to a string without
  tokens), the result is no match.
\<close>

theorem lookup_never_raises:
  assumes "well_formed data"
  shows "(\<exists>r. lookup lower upper score q data = Inr r) \<and>
         lookup lower upper score q [] = Inr NoMatch \<and>
         ((\<forall>s. (lower s = lower []) = (s = [])) \<longrightarrow>
            ((\<exists>nd \<in> set data. map_of (snd nd) ''category'' = Some (JStr [])) \<longrightarrow>
               (\<exists>rows. lookup lower upper score [] data = Inr (CategoryMatch (upper []) rows) \<and>
                  map (\<lambda>(n, p, s). (n, Some p, Some s)) rows =
                    map price_row
                      (filter (\<lambda>(name, d). map_of d ''category'' = Some (JStr [])) data))) \<and>
            (\<not> (\<exists>nd \<in> set data. map_of (snd nd) ''category'' = Some (JStr [])) \<and>
             (\<forall>n \<in> set (keys data). score [] n < 50) \<longrightarrow>
               lookup lower upper score [] data = Inr NoMatch))"
proof -
  have total: "\<exists>r. lookup lower upper score q data = Inr r"
    using assms by (rule lookup_total)
  have empty: "lookup lower upper score q [] = Inr NoMatch"
    by (simp add: lookup_def fuzzy_matches_def keys_def)
  have query: "(\<exists>nd \<in> set data. map_of (snd nd) ''category'' = Some (JStr [])) \<longrightarrow>
               (\<exists>rows. lookup lower upper score [] data = Inr (CategoryMatch (upper []) rows) \<and>
                  map (\<lambda>(n, p, s). (n, Some p, Some s)) rows =
                    map price_row
                      (filter (\<lambda>(name, d). map_of d ''category'' = Some (JStr [])) data))"
    and none: "\<not> (\<exists>nd \<in> set data. map_of (snd nd) ''category'' = Some (JStr [])) \<and>
             (\<forall>n \<in> set (keys data). score [] n < 50) \<longrightarrow>
               lookup lower upper score [] data = Inr NoMatch"
    if low: "\<forall>s. (lower s = lower []) = (s = [])"
  proof -
    have ic: "in_category lower [] d = (map_of d ''category'' = Some (JStr []))" for d
      using low by (auto simp: in_category_def split: option.splits json.splits)
    show "(\<exists>nd \<in> set data. map_of (snd nd) ''category'' = Some (JStr [])) \<longrightarrow>
               (\<exists>rows. lookup lower upper score [] data = Inr (CategoryMatch (upper []) rows) \<and>
                  map (\<lambda>(n, p, s). (n, Some p, Some s)) rows =
                    map price_row
                      (filter (\<lambda>(name, d). map_of d ''category'' = Some (JStr [])) data))"
    proof
      assume "\<exists>nd \<in> set data. map_of (snd nd) ''category'' = Some (JStr [])"
      then have "\<exists>nd \<in> set data. in_category lower [] (snd nd)"
        by (simp add: ic)
      from lookup_category_rows [OF assms this, of upper score]
      show "\<exists>rows. lookup lower upper score [] data = Inr (CategoryMatch (upper []) rows) \<and>
                  map (\<lambda>(n, p, s). (n, Some p, Some s)) rows =
                    map price_row
                      (filter (\<lambda>(name, d). map_of d ''category'' = Some (JStr [])) data)"
        by (simp add: ic)
    qed
    show "\<not> (\<exists>nd \<in> set data. map_of (snd nd) ''category'' = Some (JStr [])) \<and>
             (\<forall>n \<in> set (keys data). score [] n < 50) \<longrightarrow>
               lookup lower upper score [] data = Inr NoMatch"
    proof
      assume a: "\<not> (\<exists>nd \<in> set data. map_of (snd nd) ''category'' = Some (JStr [])) \<and>
             (\<forall>n \<in> set (keys data). score [] n < 50)"
      then have "\<not> (\<exists>nd \<in> set data. in_category lower [] (snd nd))"
        by (simp add: ic)
      then have cm: "category_matches lower [] data = Inr []"
        using assms by (rule_tac no_category_matches)
      have "\<not> (\<exists>n \<in> set (keys data). 50 \<le> score [] n)"
        using a by (auto simp: not_le)
      then have "fuzzy_matches score [] data = []"
        by (simp add: fuzzy_matches_empty)
      then show "lookup lower upper score [] data = Inr NoMatch"
        using cm by (rule_tac lookup_fuzzy_none)
    qed
  qed
  show ?thesis using total empty query none by blast
qed

theorem lookup_never_raises_witness:
  "lookup ascii_lower ascii_upper example_score [] example_catalog = Inr NoMatch \<and>
   lookup ascii_lower ascii_upper example_score [] example_unfiled =
     Inr (CategoryMatch [] [(''Misc'', JInt 1, JInt 3)]) \<and>
   lookup ascii_lower ascii_upper example_score ''pen'' [] = Inr NoMatch"
proof -
  have wf: "well_formed example_catalog" "well_formed example_unfiled"
    using example_well_formed by simp_all
  have low: "\<forall>s. (ascii_lower s = ascii_lower []) = (s = [])"
    by (simp add: ascii_lower_empty)
  have no: "\<not> (\<exists>nd \<in> set example_catalog. map_of (snd nd) ''category'' = Some (JStr []))"
    by (simp add: example_catalog_def new_product_def)
  have sc: "\<forall>n \<in> set (keys example_catalog). example_score [] n < 50"
    by (simp add: example_score_def)
  have 1: "lookup ascii_lower ascii_upper example_score [] example_catalog = Inr NoMatch"
    using lookup_never_raises [OF wf(1), of ascii_lower ascii_upper example_score "[]"] low no sc
    by blast
  have yes: "\<exists>nd \<in> set example_unfiled. map_of (snd nd) ''category'' = Some (JStr [])"
    by (simp add: example_unfiled_def new_product_def)
  have fl: "filter (\<lambda>(name, d). map_of d ''category'' = Some (JStr [])) example_unfiled =
      [(''Misc'', new_product [] 1 2 3)]"
    by (simp add: example_unfiled_def example_catalog_def new_product_def)
  obtain rows where r:
    "lookup ascii_lower ascii_upper example_score [] example_unfiled =
       Inr (CategoryMatch (ascii_upper []) rows)"
    "map (\<lambda>(n, p, s). (n, Some p, Some s)) rows =
       map price_row (filter (\<lambda>(name, d). map_of d ''category'' = Some (JStr [])) example_unfiled)"
    using lookup_never_raises [OF wf(2), of ascii_lower ascii_upper example_score "[]"] low yes
    by blast
  have "map (\<lambda>(n, p, s). (n, Some p, Some s)) rows = [(''Misc'', Some (JInt 1), Some (JInt 3))]"
    using r(2) by (simp add: fl price_row_def new_product_def)
  then have "rows = [(''Misc'', JInt 1, JInt 3)]"
    by (auto simp: map_eq_Cons_conv)
  then have 2: "lookup ascii_lower ascii_upper example_score [] example_unfiled =
     Inr (CategoryMatch [] [(''Misc'', JInt 1, JInt 3)])"
    using r(1) by (simp add: example_lower)
  have 3: "lookup ascii_lower ascii_upper example_score ''pen'' [] = Inr NoMatch"
    using lookup_never_raises [OF wf(1), of ascii_lower ascii_upper example_score "''pen''"]
    by blast
  show ?thesis using 1 2 3 by simp
qed

section \<open>Properties of the JSON files\<close>

lemma load_data_tolerant:
  "fs file_path = None \<or> fs file_path = Some Invalid \<Longrightarrow> load_data fs file_path = Inr (JDict [])"
  "fs file_path = Some (Json j) \<Longrightarrow> load_data fs file_path = Inr j"
  by (auto simp: load_data_def)

lemma load_data_saved: "load_data (save_data j file_path fs) file_path = Inr j"
  by (simp add: load_data_def save_data_def)

lemma load_data_other:
  "file_path \<noteq> other \<Longrightarrow> load_data (save_data j other fs) file_path = load_data fs file_path"
  by (simp add: load_data_def save_data_def)

lemma files_differ: "PRODUCTS_FILE \<noteq> CATEGORIES_FILE"
  by (simp add: PRODUCTS_FILE_def CATEGORIES_FILE_def)

lemma load_categories_saved:
  "load_categories (save_data (json_of_categories cs) CATEGORIES_FILE fs) = Inr (JList (map JStr cs))"
  by (simp add: load_categories_def load_data_saved json_of_categories_def)

text \<open>
  Claim C5.  The claim holds for a missing file, for a file whose text is not JSON,
  and for a file holding JSON (\<open>load_data_tolerant\<close>).  It fails for a file whose bytes
  are not text: such a file does not hold valid JSON either, but reading it raises
  \<^verbatim>\<open>UnicodeDecodeError\<close>, which \<^verbatim>\<open>load_data\<close> does not catch, so neither the catalog
  nor the category list is loaded as an empty structure.
\<close>

theorem load_data_undecodable:
  "load_data [PRODUCTS_FILE \<mapsto> Undecodable] PRODUCTS_FILE = Inl UnicodeDecodeError \<and>
   load_categories [CATEGORIES_FILE \<mapsto> Undecodable] = Inl UnicodeDecodeError"
  by (simp add: load_data_def load_categories_def)

section \<open>Properties of the category and product pages\<close>

lemma select_by_category_filter:
  "has_category_field data \<Longrightarrow>
   select_by_category keep data =
     Inr (filter (\<lambda>(name, d). case map_of d ''category'' of Some v \<Rightarrow> keep v | None \<Rightarrow> False) data)"
  by (induction data) (auto simp: has_category_field_def)

lemma select_other_categories:
  assumes "has_category_field data"
  shows "select_by_category (\<lambda>v. v \<noteq> JStr c) data =
           Inr (filter (\<lambda>(name, d). map_of d ''category'' \<noteq> Some (JStr c)) data)"
proof -
  have "filter (\<lambda>(name, d). case map_of d ''category'' of Some v \<Rightarrow> v \<noteq> JStr c | None \<Rightarrow> False) data =
        filter (\<lambda>(name, d). map_of d ''category'' \<noteq> Some (JStr c)) data"
    using assms
    by (intro filter_cong refl) (auto simp: has_category_field_def list_all_iff split: option.splits)
  then show ?thesis
    using select_by_category_filter [OF assms, of "\<lambda>v. v \<noteq> JStr c"] by simp
qed

lemma select_this_category:
  assumes "has_category_field data"
  shows "select_by_category (\<lambda>v. v = JStr c) data =
           Inr (filter (\<lambda>(name, d). map_of d ''category'' = Some (JStr c)) data)"
proof -
  have "filter (\<lambda>(name, d). case map_of d ''category'' of Some v \<Rightarrow> v = JStr c | None \<Rightarrow> False) data =
        filter (\<lambda>(name, d). map_of d ''category'' = Some (JStr c)) data"
    by (intro filter_cong refl) (auto split: option.splits)
  then show ?thesis
    using select_by_category_filter [OF assms, of "\<lambda>v. v = JStr c"] by simp
qed

lemma keys_dict_set: "k \<in> set (keys d) \<Longrightarrow> keys (dict_set k v d) = keys d"
  by (induction d) (fastforce simp: keys_def)+

lemma map_of_dict_set: "map_of (dict_set k v d) = (map_of d)(k \<mapsto> v)"
  by (induction d) (auto simp: fun_eq_iff)

lemma example_has_category_field: "has_category_field example_catalog"
  by (simp add: has_category_field_def example_catalog_def new_product_def)

text \<open>
  Claim C6.  Deleting a category that is in the list, on a catalog whose products all
  have a category field, takes the category out of the list (its first occurrence;
  the list has no other when it is free of duplicates, as the program keeps it),
  removes exactly the products of that category from the catalog and keeps the others
  as they are and in order, and saves both: loading the two files afterwards gives
  the new catalog and the new list.
\<close>

theorem delete_category_cascade:
  assumes "has_category_field data"
    and "selected \<in> set categories"
  shows "\<exists>data' categories' fs'.
           delete_category selected data categories fs = Inr (data', categories', fs', Success) \<and>
           categories' = remove1 selected categories \<and>
           (distinct categories \<longrightarrow>
              selected \<notin> set categories' \<and> set categories' = set categories - {selected}) \<and>
           data' = filter (\<lambda>(name, d). map_of d ''category'' \<noteq> Some (JStr selected)) data \<and>
           load_data fs' PRODUCTS_FILE = Inr (json_of_catalog data') \<and>
           load_categories fs' = Inr (JList (map JStr categories'))"
proof -
  let ?data' = "filter (\<lambda>(name, d). map_of d ''category'' \<noteq> Some (JStr selected)) data"
  let ?cats' = "remove1 selected categories"
  let ?fs' = "save_data (json_of_categories ?cats') CATEGORIES_FILE
                (save_data (json_of_catalog ?data') PRODUCTS_FILE fs)"
  have run: "delete_category selected data categories fs = Inr (?data', ?cats', ?fs', Success)"
    using assms(2) select_other_categories [OF assms(1), of selected]
    by (simp add: delete_category_def Let_def)
  have cats: "distinct categories \<longrightarrow>
              selected \<notin> set ?cats' \<and> set ?cats' = set categories - {selected}"
    by simp
  have products: "load_data ?fs' PRODUCTS_FILE = Inr (json_of_catalog ?data')"
    using files_differ by (simp add: load_data_other load_data_saved)
  have list: "load_categories ?fs' = Inr (JList (map JStr ?cats'))"
    by (rule load_categories_saved)
  show ?thesis
    using run cats products list by blast
qed

theorem delete_category_cascade_witness:
  "\<exists>fs'. delete_category ''Stationery'' example_catalog [''Tools'', ''Stationery'', ''TOOLS''] Map.empty =
       Inr ([(''Hammer'', new_product ''Tools'' 10 12 15), (''Saw'', new_product ''TOOLS'' 20 22 25)],
            [''Tools'', ''TOOLS''], fs', Success) \<and>
     load_data fs' PRODUCTS_FILE =
       Inr (json_of_catalog
              [(''Hammer'', new_product ''Tools'' 10 12 15), (''Saw'', new_product ''TOOLS'' 20 22 25)]) \<and>
     load_categories fs' = Inr (JList [JStr ''Tools'', JStr ''TOOLS''])"
proof -
  have h: "''Stationery'' \<in> set [''Tools'', ''Stationery'', ''TOOLS'']"
    by simp
  have f: "filter (\<lambda>(name, d). map_of d ''category'' \<noteq> Some (JStr ''Stationery'')) example_catalog =
      [(''Hammer'', new_product ''Tools'' 10 12 15), (''Saw'', new_product ''TOOLS'' 20 22 25)]"
    by (simp add: example_catalog_def new_product_def)
  have r: "remove1 ''Stationery'' [''Tools'', ''Stationery'', ''TOOLS''] = [''Tools'', ''TOOLS'']"
    by simp
  show ?thesis
    using delete_category_cascade [OF example_has_category_field h, of Map.empty]
    unfolding f r by auto
qed

text \<open>
  Claim C7.  The add page shows success exactly when the name is not empty, the
  category is not the placeholder \<^verbatim>\<open>Select a Category\<close>, and the three prices are
  positive.  Otherwise it shows the error, and catalog and files stay as they were.
  On success the catalog holds the new record under the name, with its three positive
  prices, and the saved file holds that catalog.
\<close>

theorem add_product_validation:
  assumes "add_product product_name category purchase_price dealer_price selling_price data fs =
             (data', fs', n)"
  shows "((n = Success) =
            (product_name \<noteq> [] \<and> category \<noteq> ''Select a Category'' \<and> 0 < purchase_price \<and>
             0 < dealer_price \<and> 0 < selling_price)) \<and>
         (n \<noteq> Success \<longrightarrow> n = Failure \<and> data' = data \<and> fs' = fs) \<and>
         (n = Success \<longrightarrow>
            map_of data' product_name =
              Some [(''category'', JStr category), (''purchase_price'', JInt purchase_price),
                    (''dealer_price'', JInt dealer_price), (''selling_price'', JInt selling_price)] \<and>
            0 < purchase_price \<and> 0 < dealer_price \<and> 0 < selling_price \<and>
            load_data fs' PRODUCTS_FILE = Inr (json_of_catalog data'))"
proof (cases "product_name \<noteq> [] \<and> category \<noteq> ''Select a Category'' \<and> 0 < purchase_price \<and>
             0 < selling_price \<and> 0 < dealer_price")
  case True
  then have "data' = dict_set product_name
                       (new_product category purchase_price dealer_price selling_price) data"
    "fs' = save_data (json_of_catalog data') PRODUCTS_FILE fs" "n = Success"
    using assms by (auto simp: add_product_def Let_def)
  then show ?thesis
    using True by (simp add: map_of_dict_set load_data_saved new_product_def)
next
  case False
  then have "data' = data" "fs' = fs" "n = Failure"
    using assms by (auto simp: add_product_def)
  then show ?thesis
    using False by auto
qed

theorem add_product_validation_witness:
  "add_product ''Chisel'' ''Tools'' 7 8 9 example_catalog Map.empty =
     (example_catalog @ [(''Chisel'', new_product ''Tools'' 7 8 9)],
      [PRODUCTS_FILE \<mapsto>
         Json (json_of_catalog (example_catalog @ [(''Chisel'', new_product ''Tools'' 7 8 9)]))],
      Success) \<and>
   map_of (example_catalog @ [(''Chisel'', new_product ''Tools'' 7 8 9)]) ''Chisel'' =
     Some [(''category'', JStr ''Tools''), (''purchase_price'', JInt 7),
           (''dealer_price'', JInt 8), (''selling_price'', JInt 9)] \<and>
   add_product ''Chisel'' ''Tools'' 7 0 9 example_catalog Map.empty =
     (example_catalog, Map.empty, Failure)"
proof -
  have ok: "add_product ''Chisel'' ''Tools'' 7 8 9 example_catalog Map.empty =
     (example_catalog @ [(''Chisel'', new_product ''Tools'' 7 8 9)],
      [PRODUCTS_FILE \<mapsto>
         Json (json_of_catalog (example_catalog @ [(''Chisel'', new_product ''Tools'' 7 8 9)]))],
      Success)"
    by (simp add: add_product_def example_catalog_def save_data_def Let_def)
  have no: "\<exists>data' fs' n. add_product ''Chisel'' ''Tools'' 7 0 9 example_catalog Map.empty =
      (data', fs', n)"
    by (simp add: add_product_def)
  then obtain data' fs' n where r:
    "add_product ''Chisel'' ''Tools'' 7 0 9 example_catalog Map.empty = (data', fs', n)"
    by blast
  have "n = Failure \<and> data' = example_catalog \<and> fs' = Map.empty"
    using add_product_validation [OF r] by simp
  then have bad: "add_product ''Chisel'' ''Tools'' 7 0 9 example_catalog Map.empty =
     (example_catalog, Map.empty, Failure)"
    using r by simp
  show ?thesis
    using ok add_product_validation [OF ok] bad by simp
qed

text \<open>
  Claim C10.  Adding a product with valid details under a name the catalog already
  has succeeds without any warning: the catalog keeps the same names in the same
  order, so no second entry appears; the name now maps to the new record and to
  nothing of the old one; every other name maps to what it mapped to before; and the
  saved file holds the new catalog.
\<close>

theorem add_product_overwrites:
  assumes "product_name \<noteq> []" and "category \<noteq> ''Select a Category''"
    and "0 < purchase_price" and "0 < dealer_price" and "0 < selling_price"
    and "product_name \<in> set (keys data)"
  shows "\<exists>data' fs'.
           add_product product_name category purchase_price dealer_price selling_price data fs =
             (data', fs', Success) \<and>
           keys data' = keys data \<and>
           map_of data' product_name =
             Some [(''category'', JStr category), (''purchase_price'', JInt purchase_price),
                   (''dealer_price'', JInt dealer_price), (''selling_price'', JInt selling_price)] \<and>
           (\<forall>k. k \<noteq> product_name \<longrightarrow> map_of data' k = map_of data k) \<and>
           load_data fs' PRODUCTS_FILE = Inr (json_of_catalog data')"
proof -
  let ?data' = "dict_set product_name
                  (new_product category purchase_price dealer_price selling_price) data"
  let ?fs' = "save_data (json_of_catalog ?data') PRODUCTS_FILE fs"
  have run: "add_product product_name category purchase_price dealer_price selling_price data fs =
      (?data', ?fs', Success)"
    using assms(1-5) by (simp add: add_product_def Let_def)
  have names: "keys ?data' = keys data"
    using assms(6) by (rule keys_dict_set)
  have new: "map_of ?data' product_name =
             Some [(''category'', JStr category), (''purchase_price'', JInt purchase_price),
                   (''dealer_price'', JInt dealer_price), (''selling_price'', JInt selling_price)]"
    by (simp add: map_of_dict_set new_product_def)
  have others: "\<forall>k. k \<noteq> product_name \<longrightarrow> map_of ?data' k = map_of data k"
    by (simp add: map_of_dict_set)
  have saved: "load_data ?fs' PRODUCTS_FILE = Inr (json_of_catalog ?data')"
    by (rule load_data_saved)
  show ?thesis
    using run names new others saved by blast
qed

theorem add_product_overwrites_witness:
  "add_product ''Red Pen'' ''Tools'' 1 2 3 example_catalog Map.empty =
     ([(''Hammer'', new_product ''Tools'' 10 12 15),
       (''Red Pen'', new_product ''Tools'' 1 2 3),
       (''Saw'', new_product ''TOOLS'' 20 22 25),
       (''Blue Pen'', new_product ''Stationery'' 4 5 7)],
      [PRODUCTS_FILE \<mapsto>
         Json (json_of_catalog
                 [(''Hammer'', new_product ''Tools'' 10 12 15),
                  (''Red Pen'', new_product ''Tools'' 1 2 3),
                  (''Saw'', new_product ''TOOLS'' 20 22 25),
                  (''Blue Pen'', new_product ''Stationery'' 4 5 7)])],
      Success) \<and>
   keys [(''Hammer'', new_product ''Tools'' 10 12 15),
         (''Red Pen'', new_product ''Tools'' 1 2 3),
         (''Saw'', new_product ''TOOLS'' 20 22 25),
         (''Blue Pen'', new_product ''Stationery'' 4 5 7)] = keys example_catalog"
proof -
  have ok: "add_product ''Red Pen'' ''Tools'' 1 2 3 example_catalog Map.empty =
     ([(''Hammer'', new_product ''Tools'' 10 12 15),
       (''Red Pen'', new_product ''Tools'' 1 2 3),
       (''Saw'', new_product ''TOOLS'' 20 22 25),
       (''Blue Pen'', new_product ''Stationery'' 4 5 7)],
      [PRODUCTS_FILE \<mapsto>
         Json (json_of_catalog
                 [(''Hammer'', new_product ''Tools'' 10 12 15),
                  (''Red Pen'', new_product ''Tools'' 1 2 3),
                  (''Saw'', new_product ''TOOLS'' 20 22 25),
                  (''Blue Pen'', new_product ''Stationery'' 4 5 7)])],
      Success)"
    by (simp add: add_product_def example_catalog_def save_data_def Let_def)
  have h: "''Red Pen'' \<noteq> []" "''Tools'' \<noteq> ''Select a Category''" "(0::int) < 1" "(0::int) < 2"
    "(0::int) < 3" "''Red Pen'' \<in> set (keys example_catalog)"
    by (simp_all add: keys_def example_catalog_def)
  show ?thesis
    using add_product_overwrites [OF h, of Map.empty] ok by auto
qed

section \<open>Properties of the CSV exporter\<close>

lemma csv_cell_spec: "map_of d ''Product Name'' = None \<Longrightarrow> csv_cell product d col = spec_cell product d col"
  by (simp add: csv_cell_def spec_cell_def)


text \<open>
  Claim C8.  For a catalog that is not empty and whose products have no field that is
  itself called \<^verbatim>\<open>Product Name\<close> (the program writes none), the exporter returns the
  column list as the header and one row for each product, in catalog order; in a row,
  the column \<^verbatim>\<open>Product Name\<close> is the product's key, and every other column is the
  product's field of that name, or the empty string when the product has no such
  field.
\<close>

theorem generate_csv_rows:
  assumes "data \<noteq> []"
    and "\<forall>nd \<in> set data. map_of (snd nd) ''Product Name'' = None"
  shows "generate_csv data selected_columns =
           Some (selected_columns,
                 map (\<lambda>(product, d). map (spec_cell product d) selected_columns) data)"
proof -
  have "map (\<lambda>(product, d). map (csv_cell product d) selected_columns) data =
        map (\<lambda>(product, d). map (spec_cell product d) selected_columns) data"
    using assms(2) by (intro map_cong refl) (auto simp: csv_cell_spec)
  then show ?thesis
    using assms(1) by (simp add: generate_csv_def)
qed

theorem generate_csv_rows_witness:
  "generate_csv example_catalog [''Product Name'', ''selling_price'', ''discount'', ''category''] =
     Some ([''Product Name'', ''selling_price'', ''discount'', ''category''],
           [[JStr ''Hammer'', JInt 15, JStr [], JStr ''Tools''],
            [JStr ''Red Pen'', JInt 8, JStr [], JStr ''Stationery''],
            [JStr ''Saw'', JInt 25, JStr [], JStr ''TOOLS''],
            [JStr ''Blue Pen'', JInt 7, JStr [], JStr ''Stationery'']])"
proof -
  have h1: "example_catalog \<noteq> []"
    by (simp add: example_catalog_def)
  have h2: "\<forall>nd \<in> set example_catalog. map_of (snd nd) ''Product Name'' = None"
    by (simp add: example_catalog_def new_product_def)
  show ?thesis
    using generate_csv_rows [OF h1 h2, of "[''Product Name'', ''selling_price'', ''discount'', ''category'']"]
    by (simp add: example_catalog_def new_product_def spec_cell_def)
qed



end
